theory Spec2Isabelle
  imports Complex_Main "HOL-Library.Word"
begin

unbundle bit_operations_syntax

section \<open>JavaScript strings\<close>

text \<open>
  A JavaScript string is a sequence of 16-bit UTF-16 code units. The transcript parser
  of \<^verbatim>\<open>App.tsx\<close> uses \<^verbatim>\<open>split('\n')\<close>, \<^verbatim>\<open>trim()\<close> and two regular
  expressions; each is modelled on code units, with the character classes of the
  language definition written out.
\<close>

type_synonym jschar = "16 word"
type_synonym jsstring = "jschar list"

definition str :: "string \<Rightarrow> jsstring" where
  "str s = map of_char s"

text \<open>
  The characters removed by \<^verbatim>\<open>trim()\<close> and matched by \<^verbatim>\<open>\s\<close>: the WhiteSpace
  and LineTerminator productions. The dot of a regular expression without the
  \<^verbatim>\<open>s\<close> flag matches every code unit that is not a line terminator.
\<close>

definition isLineTerminator :: "jschar \<Rightarrow> bool" where
  "isLineTerminator c = (c = 0x000A \<or> c = 0x000D \<or> c = 0x2028 \<or> c = 0x2029)"

definition isWhiteSpace :: "jschar \<Rightarrow> bool" where
  "isWhiteSpace c =
     (c = 0x0009 \<or> c = 0x000B \<or> c = 0x000C \<or> c = 0x0020 \<or> c = 0x00A0 \<or> c = 0x1680
      \<or> (0x2000 \<le> c \<and> c \<le> 0x200A) \<or> c = 0x202F \<or> c = 0x205F \<or> c = 0x3000
      \<or> c = 0xFEFF \<or> isLineTerminator c)"

definition trim :: "jsstring \<Rightarrow> jsstring" where
  "trim s = rev (dropWhile isWhiteSpace (rev (dropWhile isWhiteSpace s)))"

text \<open>\<^verbatim>\<open>text.split('\n')\<close>: the empty string splits into one empty line.\<close>

fun split_nl :: "jsstring \<Rightarrow> jsstring list" where
  "split_nl [] = [[]]"
| "split_nl (c # cs) =
     (if c = 0x000A then [] # split_nl cs
      else (case split_nl cs of [] \<Rightarrow> [[c]] | l # ls \<Rightarrow> (c # l) # ls))"

text \<open>
  Case-insensitive comparison of the \<^verbatim>\<open>i\<close> flag (no \<^verbatim>\<open>u\<close> flag): both code units
  are canonicalised by upper-casing, and a code unit of 128 or more is never mapped
  to one below 128. The patterns of the parser consist of ASCII characters only, so
  the upper-casing of ASCII letters decides every comparison the parser makes.
\<close>

definition canonicalize :: "jschar \<Rightarrow> jschar" where
  "canonicalize c = (if 0x0061 \<le> c \<and> c \<le> 0x007A then c - 0x0020 else c)"

text \<open>
  \<^verbatim>\<open>s.match(/^<label>\s*(.*)/i)\<close> for a literal ASCII label, returning capture group 1
  when the expression matches. After the label the greedy \<^verbatim>\<open>\s*\<close> takes every
  white-space code unit and the greedy \<^verbatim>\<open>(.*)\<close> every code unit up to the first line
  terminator; both may be empty, so the first attempt succeeds and nothing backtracks.
\<close>

definition matchLabel :: "jsstring \<Rightarrow> jsstring \<Rightarrow> jsstring option" where
  "matchLabel label s =
     (if length label \<le> length s
         \<and> map canonicalize (take (length label) s) = map canonicalize label
      then Some (takeWhile (\<lambda>c. \<not> isLineTerminator c)
                   (dropWhile isWhiteSpace (drop (length label) s)))
      else None)"

section \<open>Application state\<close>

datatype AppStatus = IDLE | PARSING | GENERATING | SUCCESS | ERROR

datatype Speaker = User | Assistant

record DialogueLine =
  speaker :: Speaker
  line_text :: jsstring

record SpeakerConfig =
  name :: jsstring
  voice :: jsstring

record ('buf, 'blob) AudioSession =
  buffer :: 'buf
  blob :: 'blob
  url :: jsstring

record ('buf, 'blob) AppState =
  status :: AppStatus
  error :: "jsstring option"
  dialogue :: "DialogueLine list"
  userConfig :: SpeakerConfig
  assistantConfig :: SpeakerConfig
  audioSession :: "('buf, 'blob) AudioSession option"

text \<open>The initial values of the six state variables of the component.\<close>

definition initialState :: "('buf, 'blob) AppState" where
  "initialState =
     \<lparr>status = IDLE, error = None, dialogue = [],
      userConfig = \<lparr>name = str ''User'', voice = str ''Kore''\<rparr>,
      assistantConfig = \<lparr>name = str ''Assistant'', voice = str ''Puck''\<rparr>,
      audioSession = None\<rparr>"

section \<open>The transcript parser\<close>

text \<open>The body of the \<^verbatim>\<open>forEach\<close> in \<^verbatim>\<open>parseMarkdown\<close>, on the list \<^verbatim>\<open>parsed\<close>.\<close>

definition appendToLast :: "DialogueLine list \<Rightarrow> jsstring \<Rightarrow> DialogueLine list" where
  "appendToLast parsed trimmed =
     butlast parsed
     @ [(last parsed)\<lparr>line_text := line_text (last parsed) @ [0x0020] @ trimmed\<rparr>]"

definition parseLine :: "DialogueLine list \<Rightarrow> jsstring \<Rightarrow> DialogueLine list" where
  "parseLine parsed line =
     (let trimmed = trim line in
      if trimmed = [] then parsed
      else (case matchLabel (str ''User:'') trimmed of
              Some cap \<Rightarrow> parsed @ [\<lparr>speaker = User, line_text = trim cap\<rparr>]
            | None \<Rightarrow>
               (case matchLabel (str ''Assistant:'') trimmed of
                  Some cap \<Rightarrow> parsed @ [\<lparr>speaker = Assistant, line_text = trim cap\<rparr>]
                | None \<Rightarrow> if parsed \<noteq> [] then appendToLast parsed trimmed else parsed)))"

definition parseLines :: "jsstring \<Rightarrow> DialogueLine list" where
  "parseLines text = foldl parseLine [] (split_nl text)"

definition noLinesMessage :: jsstring where
  "noLinesMessage = str ''No valid 'User:' or 'Assistant:' lines found in the file.''"

definition parseMarkdown ::
  "jsstring \<Rightarrow> ('buf, 'blob) AppState \<Rightarrow> ('buf, 'blob) AppState" where
  "parseMarkdown text s =
     (let parsed = parseLines text in
      if parsed = [] then s\<lparr>error := Some noLinesMessage, status := ERROR\<rparr>
      else s\<lparr>dialogue := parsed, status := IDLE, audioSession := None\<rparr>)"

section \<open>The remote generation call\<close>

text \<open>
  \<^verbatim>\<open>generateTTS\<close> builds one request from the dialogue and the two speaker
  configurations, awaits the remote service once and extracts the payload from the
  response. The remote service and the model name (a constant of a file that is not
  part of the sources at hand) are parameters. The function returns its result together
  with the list of requests it issued.
\<close>

datatype JsError = JsError (message: "jsstring option")

record Request =
  model :: jsstring
  prompt :: jsstring
  speakerVoiceConfigs :: "(jsstring \<times> jsstring) list"

record InlineData =
  data :: "jsstring option"

record Part =
  inlineData :: "InlineData option"

record Content =
  parts :: "Part list option"

record Candidate =
  content :: "Content option"

record Response =
  candidates :: "Candidate list option"

fun join :: "jsstring \<Rightarrow> jsstring list \<Rightarrow> jsstring" where
  "join sep [] = []"
| "join sep [x] = x"
| "join sep (x # y # ys) = x @ sep @ join sep (y # ys)"

definition dialogueText :: "DialogueLine list \<Rightarrow> SpeakerConfig \<Rightarrow> SpeakerConfig \<Rightarrow> jsstring" where
  "dialogueText lines uc ac =
     join [0x000A]
       (map (\<lambda>l. (if speaker l = User then name uc else name ac) @ str '': '' @ line_text l)
          lines)"

definition promptHead :: jsstring where
  "promptHead =
     str ''Convert the following conversation into audio with high naturalness. Ensure the emotional tone matches the context:''
     @ [0x000A]"

definition mkRequest ::
  "jsstring \<Rightarrow> DialogueLine list \<Rightarrow> SpeakerConfig \<Rightarrow> SpeakerConfig \<Rightarrow> Request" where
  "mkRequest mdl lines uc ac =
     \<lparr>model = mdl, prompt = promptHead @ dialogueText lines uc ac,
      speakerVoiceConfigs = [(name uc, voice uc), (name ac, voice ac)]\<rparr>"

text \<open>The optional chain \<^verbatim>\<open>response.candidates?.[0]?.content?.parts?.[0]?.inlineData?.data\<close>.\<close>

definition first :: "'a list option \<Rightarrow> 'a option" where
  "first xs = (case xs of None \<Rightarrow> None | Some [] \<Rightarrow> None | Some (x # _) \<Rightarrow> Some x)"

definition base64Audio :: "Response \<Rightarrow> jsstring option" where
  "base64Audio response =
     (case first (candidates response) of
        None \<Rightarrow> None
      | Some cand \<Rightarrow>
         (case content cand of
            None \<Rightarrow> None
          | Some cont \<Rightarrow>
             (case first (parts cont) of
                None \<Rightarrow> None
              | Some part \<Rightarrow>
                 (case inlineData part of None \<Rightarrow> None | Some inl \<Rightarrow> data inl))))"

definition noAudioMessage :: jsstring where
  "noAudioMessage = str ''No audio data received from Gemini API''"

definition generateTTS ::
  "jsstring \<Rightarrow> (Request \<Rightarrow> JsError + Response) \<Rightarrow> DialogueLine list \<Rightarrow> SpeakerConfig
     \<Rightarrow> SpeakerConfig \<Rightarrow> (JsError + jsstring) \<times> Request list" where
  "generateTTS mdl generateContent lines uc ac =
     (let req = mkRequest mdl lines uc ac in
      (case generateContent req of
         Inl e \<Rightarrow> Inl e
       | Inr response \<Rightarrow>
          (case base64Audio response of
             None \<Rightarrow> Inl (JsError (Some noAudioMessage))
           | Some b \<Rightarrow> if b = [] then Inl (JsError (Some noAudioMessage)) else Inr b),
       [req]))"

section \<open>The generate action\<close>

text \<open>
  \<^verbatim>\<open>handleGenerate\<close> of \<^verbatim>\<open>App.tsx\<close>. The three helpers it imports from
  \<^verbatim>\<open>services/audioUtils\<close> and the creation of the browser's audio context are
  parameters, each either throwing or returning; \<^verbatim>\<open>URL.createObjectURL\<close> is a
  parameter that returns. The result is the state after the action and the requests sent
  to the remote service.
\<close>

type_synonym byte = "8 word"

record ('ctx, 'buf, 'blob) Services =
  modelName :: jsstring
  generateContent :: "Request \<Rightarrow> JsError + Response"
  newAudioContext :: "nat \<Rightarrow> JsError + 'ctx"
  decodeBase64 :: "jsstring \<Rightarrow> JsError + byte list"
  decodeAudioData :: "byte list \<Rightarrow> 'ctx \<Rightarrow> JsError + 'buf"
  audioBufferToWav :: "'buf \<Rightarrow> JsError + 'blob"
  createObjectURL :: "'blob \<Rightarrow> jsstring"

definition defaultErrorMessage :: jsstring where
  "defaultErrorMessage = str ''An error occurred during audio generation.''"

text \<open>\<^verbatim>\<open>err.message || "An error occurred during audio generation."\<close>\<close>

definition errorText :: "JsError \<Rightarrow> jsstring" where
  "errorText e =
     (case message e of
        None \<Rightarrow> defaultErrorMessage
      | Some m \<Rightarrow> if m = [] then defaultErrorMessage else m)"

definition failed :: "JsError \<Rightarrow> ('buf, 'blob) AppState \<Rightarrow> ('buf, 'blob) AppState" where
  "failed e s = s\<lparr>error := Some (errorText e), status := ERROR\<rparr>"

definition handleGenerate ::
  "('ctx, 'buf, 'blob) Services \<Rightarrow> ('buf, 'blob) AppState
     \<Rightarrow> ('buf, 'blob) AppState \<times> Request list" where
  "handleGenerate sv s =
     (if dialogue s = [] then (s, [])
      else
        (let s1 = s\<lparr>status := GENERATING, error := None\<rparr>;
             (r, reqs) = generateTTS (modelName sv) (generateContent sv) (dialogue s)
                           (userConfig s) (assistantConfig s)
         in (case r of
               Inl e \<Rightarrow> (failed e s1, reqs)
             | Inr base64 \<Rightarrow>
                (case newAudioContext sv 24000 of
                   Inl e \<Rightarrow> (failed e s1, reqs)
                 | Inr audioCtx \<Rightarrow>
                    (case decodeBase64 sv base64 of
                       Inl e \<Rightarrow> (failed e s1, reqs)
                     | Inr decodedData \<Rightarrow>
                        (case decodeAudioData sv decodedData audioCtx of
                           Inl e \<Rightarrow> (failed e s1, reqs)
                         | Inr audioBuffer \<Rightarrow>
                            (case audioBufferToWav sv audioBuffer of
                               Inl e \<Rightarrow> (failed e s1, reqs)
                             | Inr wavBlob \<Rightarrow>
                                (s1\<lparr>audioSession :=
                                       Some \<lparr>buffer = audioBuffer, blob = wavBlob,
                                             url = createObjectURL sv wavBlob\<rparr>,
                                     status := SUCCESS\<rparr>, reqs))))))))"

section \<open>The audio core\<close>

text \<open>
  The sample decoder and the container encoder live in \<^verbatim>\<open>services/audioUtils\<close>,
  which is not among the sources at hand; they are modelled from sections 3 and 4 of
  the specification. A sample is a \<^typ>\<open>real\<close>: every finite 32-bit float is a
  rational number, its products with 32767 and 32768 are exact in double precision,
  and every 16-bit integer divided by 32768 is a 32-bit float, so no step of the two
  operations rounds except the \<open>round\<close> the specification names. That \<open>round\<close> is
  taken to be \<^const>\<open>round\<close>, which rounds a half upwards as \<^verbatim>\<open>Math.round\<close> does.
\<close>

record AudioBuffer =
  sampleRate :: nat
  numberOfChannels :: nat
  buf_length :: nat
  channelData :: "real list list"

record WavFileBlob =
  blob_type :: string
  blob_bytes :: "byte list"

datatype CoreError = DecodeError

text \<open>The invariant of the data model: every channel array has exactly \<open>length\<close> entries.\<close>

definition wellFormed :: "AudioBuffer \<Rightarrow> bool" where
  "wellFormed b =
     (length (channelData b) = numberOfChannels b
      \<and> list_all (\<lambda>ch. length ch = buf_length b) (channelData b))"

definition monoBuffer :: "nat \<Rightarrow> real list \<Rightarrow> AudioBuffer" where
  "monoBuffer rate xs =
     \<lparr>sampleRate = rate, numberOfChannels = 1, buf_length = length xs, channelData = [xs]\<rparr>"

text \<open>Little-endian integers in a byte buffer.\<close>

definition getInt16LE :: "byte list \<Rightarrow> nat \<Rightarrow> int" where
  "getInt16LE bs off = sint (push_bit 8 (ucast (bs ! (off + 1)) :: 16 word) OR ucast (bs ! off))"

definition getUint16LE :: "byte list \<Rightarrow> nat \<Rightarrow> nat" where
  "getUint16LE bs off = unat (push_bit 8 (ucast (bs ! (off + 1)) :: 16 word) OR ucast (bs ! off))"

definition getUint32LE :: "byte list \<Rightarrow> nat \<Rightarrow> nat" where
  "getUint32LE bs off =
     unat (push_bit 24 (ucast (bs ! (off + 3)) :: 32 word) OR push_bit 16 (ucast (bs ! (off + 2)))
           OR push_bit 8 (ucast (bs ! (off + 1))) OR ucast (bs ! off))"

definition int16LE :: "int \<Rightarrow> byte list" where
  "int16LE v = (let w = (word_of_int v :: 16 word) in [ucast w, ucast (drop_bit 8 w)])"

definition uint16LE :: "nat \<Rightarrow> byte list" where
  "uint16LE v = (let w = (word_of_nat v :: 16 word) in [ucast w, ucast (drop_bit 8 w)])"

definition uint32LE :: "nat \<Rightarrow> byte list" where
  "uint32LE v =
     (let w = (word_of_nat v :: 32 word)
      in [ucast w, ucast (drop_bit 8 w), ucast (drop_bit 16 w), ucast (drop_bit 24 w)])"

definition ascii :: "string \<Rightarrow> byte list" where
  "ascii s = map of_char s"

text \<open>
  Modelled from the spec: \<^verbatim>\<open>decodeAudioData\<close> of \<^verbatim>\<open>services/audioUtils\<close>
  (section 4.1). The frame count is \<open>floor(byteLength / 2 / channels)\<close>; frame \<open>i\<close>,
  channel \<open>c\<close> is the signed little-endian 16-bit integer at offset
  \<open>(i * channels + c) * 2\<close>, divided by 32768; a buffer of zero frames is a
  \<open>DecodeError\<close>.
\<close>

definition decodeAudioDataSpec :: "byte list \<Rightarrow> nat \<Rightarrow> nat \<Rightarrow> CoreError + AudioBuffer" where
  "decodeAudioDataSpec bs rate channels =
     (let frameCount = length bs div 2 div channels in
      if frameCount = 0 then Inl DecodeError
      else Inr \<lparr>sampleRate = rate, numberOfChannels = channels, buf_length = frameCount,
                channelData =
                  map (\<lambda>c. map (\<lambda>i. real_of_int (getInt16LE bs ((i * channels + c) * 2)) / 32768)
                              [0..<frameCount])
                    [0..<channels]\<rparr>)"

text \<open>
  Modelled from the spec: the sample conversion of \<^verbatim>\<open>audioBufferToWav\<close>
  (section 4.2): clamp to [-1, 1], then \<open>round(sample * 32768)\<close> for a negative
  sample and \<open>round(sample * 32767)\<close> otherwise.
\<close>

definition clampSample :: "real \<Rightarrow> real" where
  "clampSample s = max (- 1) (min 1 s)"

definition scaleSample :: "real \<Rightarrow> int" where
  "scaleSample s = (if s < 0 then round (s * 32768) else round (s * 32767))"

definition encodeSample :: "real \<Rightarrow> int" where
  "encodeSample s = scaleSample (clampSample s)"

text \<open>
  Modelled from the spec: the 44-byte header of \<^verbatim>\<open>audioBufferToWav\<close>, field by
  field in the order of the table of section 4.2.
\<close>

definition dataSize :: "AudioBuffer \<Rightarrow> nat" where
  "dataSize b = buf_length b * numberOfChannels b * 2"

definition wavHeader :: "AudioBuffer \<Rightarrow> byte list" where
  "wavHeader b =
     ascii ''RIFF'' @ uint32LE (36 + dataSize b) @ ascii ''WAVE''
     @ ascii ''fmt '' @ uint32LE 16 @ uint16LE 1 @ uint16LE (numberOfChannels b)
     @ uint32LE (sampleRate b) @ uint32LE (sampleRate b * numberOfChannels b * 2)
     @ uint16LE (numberOfChannels b * 2) @ uint16LE 16
     @ ascii ''data'' @ uint32LE (dataSize b)"

text \<open>
  Modelled from the spec: the sample data of \<^verbatim>\<open>audioBufferToWav\<close>: for each frame
  \<open>i\<close> from 0 to \<open>length - 1\<close>, for each channel \<open>c\<close>, the converted sample as a
  little-endian 16-bit integer.
\<close>

definition wavData :: "AudioBuffer \<Rightarrow> byte list" where
  "wavData b =
     concat (map (\<lambda>i. concat (map (\<lambda>c. int16LE (encodeSample (channelData b ! c ! i)))
                                 [0..<numberOfChannels b]))
               [0..<buf_length b])"

text \<open>
  Modelled from the spec: \<^verbatim>\<open>audioBufferToWav\<close> of \<^verbatim>\<open>services/audioUtils\<close>:
  the header followed by the sample data, with MIME type \<^verbatim>\<open>audio/wav\<close>.
\<close>

definition audioBufferToWavSpec :: "AudioBuffer \<Rightarrow> WavFileBlob" where
  "audioBufferToWavSpec b = \<lparr>blob_type = ''audio/wav'', blob_bytes = wavHeader b @ wavData b\<rparr>"

text \<open>The payload of a blob: its bytes after the 44-byte header.\<close>

definition wavPayloadBytesOf :: "WavFileBlob \<Rightarrow> byte list" where
  "wavPayloadBytesOf w = drop 44 (blob_bytes w)"

section \<open>Notions used to state the properties\<close>

text \<open>
  What the parser makes of a trimmed line: the speaker and the trimmed capture group
  when one of the two expressions matches, the first expression tried first.
\<close>

definition recognise :: "jsstring \<Rightarrow> (Speaker \<times> jsstring) option" where
  "recognise t =
     (case matchLabel (str ''User:'') t of
        Some cap \<Rightarrow> Some (User, trim cap)
      | None \<Rightarrow>
         (case matchLabel (str ''Assistant:'') t of
            Some cap \<Rightarrow> Some (Assistant, trim cap)
          | None \<Rightarrow> None))"

text \<open>The loop body on a line that is already trimmed and not blank.\<close>

definition parseTrimmed :: "DialogueLine list \<Rightarrow> jsstring \<Rightarrow> DialogueLine list" where
  "parseTrimmed parsed t =
     (case recognise t of
        Some (sp, c) \<Rightarrow> parsed @ [\<lparr>speaker = sp, line_text = c\<rparr>]
      | None \<Rightarrow> if parsed \<noteq> [] then appendToLast parsed t else parsed)"

text \<open>The trimmed, non-blank lines of a text, in order.\<close>

definition contentLines :: "jsstring \<Rightarrow> jsstring list" where
  "contentLines text = filter (\<lambda>t. t \<noteq> []) (map trim (split_nl text))"

definition continuation :: "jsstring list \<Rightarrow> jsstring" where
  "continuation cs = concat (map (\<lambda>c. 0x0020 # c) cs)"

text \<open>
  The parsing rule in the words of the specification, on the trimmed non-blank lines:
  each recognised line opens a turn whose text is its capture followed by every line up
  to the next recognised one, each after one space; a line before the first recognised
  line belongs to no turn.
\<close>

function turnsSpec :: "jsstring list \<Rightarrow> DialogueLine list" where
  "turnsSpec [] = []"
| "turnsSpec (l # ls) =
     (case recognise l of
        None \<Rightarrow> turnsSpec ls
      | Some (sp, t) \<Rightarrow>
          \<lparr>speaker = sp,
           line_text = t @ continuation (takeWhile (\<lambda>x. recognise x = None) ls)\<rparr>
          # turnsSpec (dropWhile (\<lambda>x. recognise x = None) ls))"
  by pat_completeness auto
termination
  by (relation "measure length") (auto simp: less_Suc_eq_le length_dropWhile_le)

text \<open>
  A text is tidy when it is empty, or ends in a code unit that is not white space and
  begins either with such a code unit or with one space followed by one.
\<close>

definition tidy :: "jsstring \<Rightarrow> bool" where
  "tidy x =
     (case x of
        [] \<Rightarrow> True
      | c # rest \<Rightarrow>
          \<not> isWhiteSpace (last x)
          \<and> (\<not> isWhiteSpace c \<or> (c = 0x0020 \<and> rest \<noteq> [] \<and> \<not> isWhiteSpace (hd rest))))"

text \<open>
  A response contains an audio payload when some part of some candidate has inline data
  that is not empty.
\<close>

definition carriesAudio :: "Response \<Rightarrow> bool" where
  "carriesAudio response =
     (case candidates response of
        None \<Rightarrow> False
      | Some cs \<Rightarrow>
          list_ex
            (\<lambda>c. case content c of
                    None \<Rightarrow> False
                  | Some ct \<Rightarrow>
                     (case parts ct of
                        None \<Rightarrow> False
                      | Some ps \<Rightarrow>
                          list_ex
                            (\<lambda>p. case inlineData p of
                                    None \<Rightarrow> False
                                  | Some i \<Rightarrow>
                                     (case data i of None \<Rightarrow> False | Some d \<Rightarrow> d \<noteq> []))
                            ps))
            cs)"

text \<open>A generation attempt fails with exception \<open>e\<close> at the first step that throws.\<close>

definition generationFails ::
  "('ctx, 'buf, 'blob) Services \<Rightarrow> ('buf, 'blob) AppState \<Rightarrow> JsError \<Rightarrow> bool" where
  "generationFails sv s e =
     (case fst (generateTTS (modelName sv) (generateContent sv) (dialogue s)
                  (userConfig s) (assistantConfig s)) of
        Inl e' \<Rightarrow> e' = e
      | Inr base64 \<Rightarrow>
         (case newAudioContext sv 24000 of
            Inl e' \<Rightarrow> e' = e
          | Inr audioCtx \<Rightarrow>
             (case decodeBase64 sv base64 of
                Inl e' \<Rightarrow> e' = e
              | Inr decodedData \<Rightarrow>
                 (case decodeAudioData sv decodedData audioCtx of
                    Inl e' \<Rightarrow> e' = e
                  | Inr audioBuffer \<Rightarrow>
                     (case audioBufferToWav sv audioBuffer of
                        Inl e' \<Rightarrow> e' = e
                      | Inr wavBlob \<Rightarrow> False)))))"

text \<open>
  The services with the audio core as the specification describes it: an audio context
  is its sample rate, decoding is at that rate and one channel, the encoder is total.
\<close>

definition coreServices ::
  "jsstring \<Rightarrow> (Request \<Rightarrow> JsError + Response) \<Rightarrow> (jsstring \<Rightarrow> JsError + byte list)
     \<Rightarrow> (WavFileBlob \<Rightarrow> jsstring) \<Rightarrow> (nat, AudioBuffer, WavFileBlob) Services" where
  "coreServices mdl remote decode64 mkUrl =
     \<lparr>modelName = mdl, generateContent = remote, newAudioContext = (\<lambda>rate. Inr rate),
      decodeBase64 = decode64,
      decodeAudioData =
        (\<lambda>bs rate. case decodeAudioDataSpec bs rate 1 of
                 Inl err \<Rightarrow> Inl (JsError None)
               | Inr b \<Rightarrow> Inr b),
      audioBufferToWav = (\<lambda>b. Inr (audioBufferToWavSpec b)),
      createObjectURL = mkUrl\<rparr>"

text \<open>A sample after encoding to 16 bits and decoding again.\<close>

definition requantise :: "real \<Rightarrow> real" where
  "requantise s = real_of_int (encodeSample s) / 32768"

section \<open>The parser: helper lemmas\<close>

lemma recognise_Nil: "recognise [] = None"
  by (simp add: recognise_def matchLabel_def str_def)

lemma parseLine_recognise:
  "parseLine parsed line =
     (if trim line = [] then parsed else parseTrimmed parsed (trim line))"
  by (simp add: parseLine_def parseTrimmed_def recognise_def Let_def split: option.splits)

lemma parseTrimmed_Nil_iff:
  "parseTrimmed parsed t = [] \<longleftrightarrow> parsed = [] \<and> recognise t = None"
  by (auto simp: parseTrimmed_def appendToLast_def split: option.splits)

lemma parseLine_Nil_iff:
  "parseLine parsed line = [] \<longleftrightarrow> parsed = [] \<and> recognise (trim line) = None"
  by (auto simp: parseLine_recognise parseTrimmed_Nil_iff recognise_Nil)

lemma foldl_parseLine_Nil_iff:
  "foldl parseLine acc ls = [] \<longleftrightarrow> acc = [] \<and> (\<forall>l\<in>set ls. recognise (trim l) = None)"
  by (induction ls arbitrary: acc) (auto simp: parseLine_Nil_iff)

lemma parseLines_Nil_iff:
  "parseLines text = [] \<longleftrightarrow> (\<forall>l\<in>set (split_nl text). recognise (trim l) = None)"
  by (simp add: parseLines_def foldl_parseLine_Nil_iff)

lemma foldl_parseLine_content:
  "foldl parseLine acc ls = foldl parseTrimmed acc (filter (\<lambda>t. t \<noteq> []) (map trim ls))"
  by (induction ls arbitrary: acc) (simp_all add: parseLine_recognise)

lemma continuation_Nil: "continuation [] = []"
  by (simp add: continuation_def)

lemma continuation_Cons: "continuation (c # cs) = 0x0020 # c @ continuation cs"
  by (simp add: continuation_def)

text \<open>
  The loop with a non-empty list of turns: the lines up to the next recognised one
  extend the last turn, the rest is parsed as the specification words it.
\<close>

lemma foldl_parseTrimmed_nonempty:
  "acc \<noteq> [] \<Longrightarrow>
   foldl parseTrimmed acc ts =
     butlast acc
     @ [(last acc)\<lparr>line_text := line_text (last acc)
                      @ continuation (takeWhile (\<lambda>x. recognise x = None) ts)\<rparr>]
     @ turnsSpec (dropWhile (\<lambda>x. recognise x = None) ts)"
proof (induction ts arbitrary: acc)
  case Nil
  then show ?case by (simp add: continuation_Nil)
next
  case (Cons t ts)
  show ?case
  proof (cases "recognise t")
    case None
    let ?acc = "appendToLast acc t"
    have s: "parseTrimmed acc t = ?acc"
      using None Cons.prems by (simp add: parseTrimmed_def)
    have ne: "?acc \<noteq> []" by (simp add: appendToLast_def)
    have bl: "butlast ?acc = butlast acc" by (simp add: appendToLast_def)
    have la: "last ?acc = (last acc)\<lparr>line_text := line_text (last acc) @ [0x0020] @ t\<rparr>"
      by (simp add: appendToLast_def)
    show ?thesis
      using Cons.IH [OF ne] None by (simp add: s bl la continuation_Cons)
  next
    case (Some p)
    obtain sp c where p: "p = (sp, c)" by (cases p)
    let ?new = "\<lparr>speaker = sp, line_text = c\<rparr>"
    have s: "parseTrimmed acc t = acc @ [?new]"
      using Some p by (simp add: parseTrimmed_def)
    have ne: "acc @ [?new] \<noteq> []" by simp
    show ?thesis
      using Cons.IH [OF ne] Some p Cons.prems by (simp add: s continuation_Nil)
  qed
qed

lemma foldl_parseTrimmed_Nil: "foldl parseTrimmed [] ts = turnsSpec ts"
proof (induction ts)
  case Nil
  then show ?case by simp
next
  case (Cons t ts)
  show ?case
  proof (cases "recognise t")
    case None
    then show ?thesis using Cons.IH by (simp add: parseTrimmed_def)
  next
    case (Some p)
    obtain sp c where p: "p = (sp, c)" by (cases p)
    have s: "parseTrimmed [] t = [\<lparr>speaker = sp, line_text = c\<rparr>]"
      using Some p by (simp add: parseTrimmed_def)
    show ?thesis
      using foldl_parseTrimmed_nonempty [of "[\<lparr>speaker = sp, line_text = c\<rparr>]" ts] Some p
      by (simp add: s)
  qed
qed

lemma filter_recognised_dropWhile:
  "filter (\<lambda>t. recognise t \<noteq> None) (dropWhile (\<lambda>x. recognise x = None) ls)
     = filter (\<lambda>t. recognise t \<noteq> None) ls"
  by (induction ls) auto

lemma length_turnsSpec:
  "length (turnsSpec ts) = length (filter (\<lambda>t. recognise t \<noteq> None) ts)"
proof (induction ts rule: turnsSpec.induct)
  case 1
  then show ?case by simp
next
  case (2 l ls)
  show ?case
  proof (cases "recognise l")
    case None
    then show ?thesis using 2 by simp
  next
    case (Some p)
    obtain sp c where p: "p = (sp, c)" by (cases p)
    show ?thesis
      using 2(2) [OF Some p [symmetric]] Some p filter_recognised_dropWhile [of ls] by simp
  qed
qed

text \<open>Trimming leaves no white space at either end.\<close>

lemma last_dropWhile: "dropWhile P xs \<noteq> [] \<Longrightarrow> last (dropWhile P xs) = last xs"
  by (induction xs) (auto split: if_splits)

lemma hd_trim: "trim s \<noteq> [] \<Longrightarrow> \<not> isWhiteSpace (hd (trim s))"
proof -
  assume ne: "trim s \<noteq> []"
  let ?ys = "dropWhile isWhiteSpace s"
  let ?zs = "dropWhile isWhiteSpace (rev ?ys)"
  have zs: "?zs \<noteq> []" using ne by (simp add: trim_def)
  have ys: "?ys \<noteq> []"
  proof
    assume e: "?ys = []"
    have "?zs = []" unfolding e by simp
    with zs show False by simp
  qed
  have "hd (trim s) = last ?zs" using zs by (simp add: trim_def hd_rev)
  also have "\<dots> = last (rev ?ys)" using zs by (rule last_dropWhile)
  also have "\<dots> = hd ?ys" using ys by (simp add: last_rev)
  finally show ?thesis using ys hd_dropWhile [of isWhiteSpace s] by simp
qed

lemma last_trim: "trim s \<noteq> [] \<Longrightarrow> \<not> isWhiteSpace (last (trim s))"
proof -
  assume ne: "trim s \<noteq> []"
  let ?zs = "dropWhile isWhiteSpace (rev (dropWhile isWhiteSpace s))"
  have zs: "?zs \<noteq> []" using ne by (simp add: trim_def)
  have "last (trim s) = hd ?zs" using zs by (simp add: trim_def last_rev)
  then show ?thesis using zs hd_dropWhile [of isWhiteSpace "rev (dropWhile isWhiteSpace s)"] by simp
qed

lemma tidy_trim: "tidy (trim s)"
proof (cases "trim s")
  case Nil
  then show ?thesis by (simp add: tidy_def)
next
  case (Cons c rest)
  then show ?thesis using hd_trim [of s] last_trim [of s] by (simp add: tidy_def)
qed

lemma tidy_append:
  assumes "tidy x" and "trim l \<noteq> []"
  shows "tidy (x @ [0x0020] @ trim l)"
proof (cases x)
  case Nil
  then show ?thesis
    using assms(2) hd_trim [of l] last_trim [of l] by (simp add: tidy_def)
next
  case (Cons c rest)
  then show ?thesis
    using assms last_trim [of l] by (cases rest) (auto simp: tidy_def)
qed

lemma recognise_tidy: "recognise t = Some (sp, c) \<Longrightarrow> tidy c"
  by (auto simp: recognise_def tidy_trim split: option.splits)

lemma parseLine_tidy:
  assumes "\<forall>d\<in>set parsed. tidy (line_text d)"
  shows "\<forall>d\<in>set (parseLine parsed line). tidy (line_text d)"
proof (cases "trim line = []")
  case True
  then show ?thesis using assms by (simp add: parseLine_recognise)
next
  case False
  show ?thesis
  proof (cases "recognise (trim line)")
    case None
    show ?thesis
    proof (cases "parsed = []")
      case True
      then show ?thesis using None False by (simp add: parseLine_recognise parseTrimmed_def)
    next
      case ne: False
      have "tidy (line_text (last parsed))" using assms ne by simp
      then have "tidy (line_text (last parsed) @ [0x0020] @ trim line)"
        using False by (rule tidy_append)
      moreover have "\<forall>d\<in>set (butlast parsed). tidy (line_text d)"
        using assms by (auto dest: in_set_butlastD)
      ultimately show ?thesis
        using None False ne by (auto simp: parseLine_recognise parseTrimmed_def appendToLast_def)
    qed
  next
    case (Some p)
    obtain sp c where p: "p = (sp, c)" by (cases p)
    have "tidy c" using Some p recognise_tidy by simp
    then show ?thesis
      using Some p False assms by (auto simp: parseLine_recognise parseTrimmed_def)
  qed
qed

lemma foldl_parseLine_tidy:
  "\<forall>d\<in>set acc. tidy (line_text d) \<Longrightarrow> \<forall>d\<in>set (foldl parseLine acc ls). tidy (line_text d)"
proof (induction ls arbitrary: acc)
  case Nil
  then show ?case by simp
next
  case (Cons l ls)
  have "\<forall>d\<in>set (parseLine acc l). tidy (line_text d)"
    using Cons.prems by (rule parseLine_tidy)
  then show ?case using Cons.IH by simp
qed

lemma parseLines_tidy: "d \<in> set (parseLines text) \<Longrightarrow> tidy (line_text d)"
  using foldl_parseLine_tidy [of "[]" "split_nl text"] by (simp add: parseLines_def)

text \<open>The loop and the rule in the words of the specification agree (shared by C4 and C10).\<close>

lemma parseLines_turnsSpec: "parseLines text = turnsSpec (contentLines text)"
  by (simp add: parseLines_def contentLines_def foldl_parseLine_content foldl_parseTrimmed_Nil)

text \<open>
  Every turn of the rule comes from one recognised line and the maximal run of
  unrecognised lines that follows it.
\<close>

lemma turnsSpec_decompose:
  "d \<in> set (turnsSpec ts) \<Longrightarrow>
   \<exists>pre l cap cs rest.
      ts = pre @ l # cs @ rest
      \<and> recognise l = Some (speaker d, cap)
      \<and> (\<forall>c\<in>set cs. recognise c = None)
      \<and> (rest \<noteq> [] \<longrightarrow> recognise (hd rest) \<noteq> None)
      \<and> line_text d = cap @ continuation cs"
proof (induction ts rule: turnsSpec.induct)
  case 1
  then show ?case by simp
next
  case (2 l ls)
  let ?P = "\<lambda>x. recognise x = None"
  show ?case
  proof (cases "recognise l")
    case None
    then have "d \<in> set (turnsSpec ls)" using 2(3) by simp
    then obtain pre l' cap cs rest where
      h: "ls = pre @ l' # cs @ rest" "recognise l' = Some (speaker d, cap)"
         "\<forall>c\<in>set cs. recognise c = None" "rest \<noteq> [] \<longrightarrow> recognise (hd rest) \<noteq> None"
         "line_text d = cap @ continuation cs"
      using 2(1) [OF None] by blast
    have "l # ls = (l # pre) @ l' # cs @ rest" using h(1) by simp
    then show ?thesis using h(2-5) by blast
  next
    case (Some p)
    obtain sp t where p: "p = (sp, t)" by (cases p)
    have mem: "d = \<lparr>speaker = sp, line_text = t @ continuation (takeWhile ?P ls)\<rparr>
               \<or> d \<in> set (turnsSpec (dropWhile ?P ls))"
      using 2(3) Some p by simp
    then show ?thesis
    proof
      assume d: "d = \<lparr>speaker = sp, line_text = t @ continuation (takeWhile ?P ls)\<rparr>"
      have a: "l # ls = [] @ l # takeWhile ?P ls @ dropWhile ?P ls" by simp
      have b: "recognise l = Some (speaker d, t)" using Some p d by simp
      have c: "\<forall>c\<in>set (takeWhile ?P ls). recognise c = None"
        by (auto dest: set_takeWhileD)
      have e: "dropWhile ?P ls \<noteq> [] \<longrightarrow> recognise (hd (dropWhile ?P ls)) \<noteq> None"
        using hd_dropWhile [of ?P ls] by blast
      have f: "line_text d = t @ continuation (takeWhile ?P ls)" using d by simp
      show ?thesis using a b c e f by blast
    next
      assume "d \<in> set (turnsSpec (dropWhile ?P ls))"
      then obtain pre l' cap cs rest where
        h: "dropWhile ?P ls = pre @ l' # cs @ rest" "recognise l' = Some (speaker d, cap)"
           "\<forall>c\<in>set cs. recognise c = None" "rest \<noteq> [] \<longrightarrow> recognise (hd rest) \<noteq> None"
           "line_text d = cap @ continuation cs"
        using 2(2) [OF Some p [symmetric]] by blast
      have "l # ls = l # takeWhile ?P ls @ dropWhile ?P ls" by simp
      then have "l # ls = (l # takeWhile ?P ls @ pre) @ l' # cs @ rest"
        by (simp only: h(1)) simp
      then show ?thesis using h(2-5) by blast
    qed
  qed
qed

lemma contentLines_mem:
  "c \<in> set (contentLines text) \<Longrightarrow> c \<noteq> [] \<and> \<not> isWhiteSpace (hd c) \<and> \<not> isWhiteSpace (last c)"
  using hd_trim last_trim by (auto simp: contentLines_def)

lemma recognise_trimmed: "recognise l = Some (sp, cap) \<Longrightarrow> cap \<noteq> [] \<Longrightarrow> \<not> isWhiteSpace (hd cap)"
  using hd_trim by (auto simp: recognise_def split: option.splits)

section \<open>The audio core: helper lemmas\<close>

lemma length_int16LE: "length (int16LE v) = 2"
  by (simp add: int16LE_def Let_def)

lemma length_uint16LE: "length (uint16LE v) = 2"
  by (simp add: uint16LE_def Let_def)

lemma length_uint32LE: "length (uint32LE v) = 4"
  by (simp add: uint32LE_def Let_def)

lemma length_wavHeader: "length (wavHeader b) = 44"
  by (simp add: wavHeader_def ascii_def length_uint16LE length_uint32LE)

lemma wellFormed_mono:
  assumes "wellFormed b" and "numberOfChannels b = 1"
  shows "b = monoBuffer (sampleRate b) (hd (channelData b))
         \<and> length (hd (channelData b)) = buf_length b"
proof -
  obtain ch where ch: "channelData b = [ch]"
    using assms by (cases "channelData b") (auto simp: wellFormed_def)
  then have "length ch = buf_length b" using assms by (simp add: wellFormed_def)
  then show ?thesis using ch assms(2) by (simp add: monoBuffer_def)
qed

lemma wavData_mono: "wavData (monoBuffer r xs) = concat (map (\<lambda>s. int16LE (encodeSample s)) xs)"
proof -
  have "map (\<lambda>i. int16LE (encodeSample (xs ! i))) [0..<length xs]
        = map (\<lambda>s. int16LE (encodeSample s)) (map (\<lambda>i. xs ! i) [0..<length xs])"
    by simp
  also have "\<dots> = map (\<lambda>s. int16LE (encodeSample s)) xs"
    by (simp only: map_nth)
  finally show ?thesis
    by (simp add: wavData_def monoBuffer_def)
qed

lemma length_concat_int16LE: "length (concat (map (\<lambda>s. int16LE (f s)) xs)) = 2 * length xs"
  by (induction xs) (simp_all add: length_int16LE)

lemma payload_mono:
  "wavPayloadBytesOf (audioBufferToWavSpec (monoBuffer r xs))
     = concat (map (\<lambda>s. int16LE (encodeSample s)) xs)"
  by (simp add: wavPayloadBytesOf_def audioBufferToWavSpec_def length_wavHeader wavData_mono)

lemma word16_bytes:
  "push_bit 8 (ucast (ucast (drop_bit 8 w) :: 8 word) :: 16 word) OR ucast (ucast w :: 8 word)
     = (w :: 16 word)"
  by (rule bit_word_eqI) (auto simp add: bit_simps)

lemma getInt16LE_int16LE: "getInt16LE (int16LE v @ rest) 0 = sint (word_of_int v :: 16 word)"
  by (simp add: getInt16LE_def int16LE_def Let_def word16_bytes)

lemma getInt16LE_skip: "getInt16LE (int16LE v @ rest) (2 * Suc i) = getInt16LE rest (2 * i)"
  by (simp add: getInt16LE_def nth_append length_int16LE)

lemma getInt16LE_concat:
  "i < length vs \<Longrightarrow>
   getInt16LE (concat (map int16LE vs)) (2 * i) = sint (word_of_int (vs ! i) :: 16 word)"
proof (induction vs arbitrary: i)
  case Nil
  then show ?case by simp
next
  case (Cons v vs)
  show ?case
  proof (cases i)
    case 0
    then show ?thesis using getInt16LE_int16LE [of v "concat (map int16LE vs)"] by simp
  next
    case (Suc j)
    then show ?thesis
      using Cons.IH [of j] Cons.prems getInt16LE_skip [of v "concat (map int16LE vs)" j]
      by simp
  qed
qed

lemma clampSample_range: "- 1 \<le> clampSample s \<and> clampSample s \<le> 1"
  by (simp add: clampSample_def)

lemma scaleSample_range:
  assumes "- 1 \<le> c" "c \<le> 1"
  shows "- 32768 \<le> scaleSample c \<and> scaleSample c \<le> 32767"
proof (cases "c < 0")
  case True
  have "round (- 32768 :: real) \<le> round (c * 32768)" using assms by (intro round_mono) simp
  moreover have "round (c * 32768) \<le> round (0::real)" using True by (intro round_mono) simp
  ultimately show ?thesis using True by (simp add: scaleSample_def)
next
  case False
  have "round (0 :: real) \<le> round (c * 32767)" using False by (intro round_mono) simp
  moreover have "round (c * 32767) \<le> round (32767::real)" using assms by (intro round_mono) simp
  ultimately show ?thesis using False by (simp add: scaleSample_def)
qed

lemma encodeSample_range: "- 32768 \<le> encodeSample s \<and> encodeSample s \<le> 32767"
  using scaleSample_range [of "clampSample s"] clampSample_range [of s]
  by (simp add: encodeSample_def)

lemma sint_int16: "- 32768 \<le> v \<Longrightarrow> v \<le> 32767 \<Longrightarrow> sint (word_of_int v :: 16 word) = v"
  by (simp add: sint_sbintrunc' signed_take_bit_int_eq_self)

lemma getInt16LE_payload:
  assumes "i < length xs"
  shows "getInt16LE (concat (map (\<lambda>s. int16LE (encodeSample s)) xs)) (2 * i)
         = encodeSample (xs ! i)"
proof -
  have "concat (map (\<lambda>s. int16LE (encodeSample s)) xs)
        = concat (map int16LE (map encodeSample xs))"
    by (simp add: comp_def)
  then show ?thesis
    using getInt16LE_concat [of i "map encodeSample xs"] assms encodeSample_range [of "xs ! i"]
    by (simp add: sint_int16)
qed

lemma decode_concat:
  assumes "xs \<noteq> []"
  shows "decodeAudioDataSpec (concat (map (\<lambda>s. int16LE (encodeSample s)) xs)) r 1
         = Inr (monoBuffer r (map requantise xs))"
proof -
  let ?p = "concat (map (\<lambda>s. int16LE (encodeSample s)) xs)"
  have len: "length ?p div 2 = length xs" by (simp add: length_concat_int16LE)
  have "map (\<lambda>i. real_of_int (getInt16LE ?p (i * 2)) / 32768) [0..<length xs]
        = map (\<lambda>i. requantise (xs ! i)) [0..<length xs]"
    using getInt16LE_payload [of _ xs] by (simp add: requantise_def mult.commute)
  also have "\<dots> = map requantise (map (\<lambda>i. xs ! i) [0..<length xs])" by simp
  also have "\<dots> = map requantise xs" by (simp only: map_nth)
  finally show ?thesis using assms
    by (simp add: decodeAudioDataSpec_def len monoBuffer_def Let_def)
qed

lemma decode_payload:
  assumes "xs \<noteq> []"
  shows "decodeAudioDataSpec (wavPayloadBytesOf (audioBufferToWavSpec (monoBuffer r xs))) r 1
         = Inr (monoBuffer r (map requantise xs))"
  using decode_concat [OF assms] by (simp only: payload_mono)

lemma abs_div_bound: "\<bar>x\<bar> \<le> b \<Longrightarrow> \<bar>x / 32768\<bar> \<le> b / (32768::real)"
  by (simp add: divide_right_mono)

lemma requantise_error:
  assumes "- 1 \<le> s" "s \<le> 1"
  shows "\<bar>requantise s - s\<bar> \<le> 3 / 65536 \<and> (s < 0 \<longrightarrow> \<bar>requantise s - s\<bar> \<le> 1 / 65536)"
proof (cases "s < 0")
  case True
  have c: "clampSample s = s" using assms by (simp add: clampSample_def)
  have r: "\<bar>real_of_int (round (s * 32768)) - s * 32768\<bar> \<le> 1 / 2"
    by (rule of_int_round_abs_le)
  have eq: "requantise s - s = (real_of_int (round (s * 32768)) - s * 32768) / 32768"
    using True by (simp add: requantise_def encodeSample_def c scaleSample_def field_simps)
  have "\<bar>requantise s - s\<bar> \<le> (1 / 2) / 32768"
    unfolding eq using r by (rule abs_div_bound)
  then show ?thesis using True by simp
next
  case False
  have c: "clampSample s = s" using assms by (simp add: clampSample_def)
  have r: "\<bar>real_of_int (round (s * 32767)) - s * 32767\<bar> \<le> 1 / 2"
    by (rule of_int_round_abs_le)
  have eq: "requantise s - s = (real_of_int (round (s * 32767)) - s * 32767 - s) / 32768"
    using False by (simp add: requantise_def encodeSample_def c scaleSample_def field_simps)
  have "\<bar>real_of_int (round (s * 32767)) - s * 32767 - s\<bar> \<le> 3 / 2"
    using r assms False by linarith
  then have "\<bar>requantise s - s\<bar> \<le> (3 / 2) / 32768"
    unfolding eq by (rule abs_div_bound)
  then show ?thesis using False by simp
qed

lemma header_bytes_1000:
  "wavHeader (monoBuffer 24000 xs) =
     [0x52, 0x49, 0x46, 0x46, 0xF4, 0x07, 0x00, 0x00, 0x57, 0x41, 0x56, 0x45,
      0x66, 0x6D, 0x74, 0x20, 0x10, 0x00, 0x00, 0x00, 0x01, 0x00, 0x01, 0x00,
      0xC0, 0x5D, 0x00, 0x00, 0x80, 0xBB, 0x00, 0x00, 0x02, 0x00, 0x10, 0x00,
      0x64, 0x61, 0x74, 0x61, 0xD0, 0x07, 0x00, 0x00]"
  if "length xs = 1000"
  using that by (simp add: wavHeader_def monoBuffer_def dataSize_def ascii_def uint32LE_def uint16LE_def Let_def)

section \<open>Properties of the audio core\<close>

text \<open>
  C1. For every mono buffer of 1000 frames at 24000 Hz the blob is 2044 bytes: the
  44-byte header, then the sample bytes. The header is given byte by byte; its fields
  ChunkSize, Subchunk2Size, ByteRate and BlockAlign, read as little-endian integers at
  offsets 4, 40, 28 and 32, are 36 + 2000, 2000, 48000 and 2.
\<close>

theorem wav_header_mono_1000:
  assumes "wellFormed b" and "numberOfChannels b = 1" and "buf_length b = 1000"
    and "sampleRate b = 24000"
  shows "length (blob_bytes (audioBufferToWavSpec b)) = 44 + 2000
     \<and> take 44 (blob_bytes (audioBufferToWavSpec b)) =
         [0x52, 0x49, 0x46, 0x46, 0xF4, 0x07, 0x00, 0x00, 0x57, 0x41, 0x56, 0x45,
          0x66, 0x6D, 0x74, 0x20, 0x10, 0x00, 0x00, 0x00, 0x01, 0x00, 0x01, 0x00,
          0xC0, 0x5D, 0x00, 0x00, 0x80, 0xBB, 0x00, 0x00, 0x02, 0x00, 0x10, 0x00,
          0x64, 0x61, 0x74, 0x61, 0xD0, 0x07, 0x00, 0x00]
     \<and> drop 44 (blob_bytes (audioBufferToWavSpec b))
         = concat (map (\<lambda>s. int16LE (encodeSample s)) (hd (channelData b)))
     \<and> getUint32LE (blob_bytes (audioBufferToWavSpec b)) 4 = 36 + 2000
     \<and> getUint32LE (blob_bytes (audioBufferToWavSpec b)) 40 = 2000
     \<and> getUint32LE (blob_bytes (audioBufferToWavSpec b)) 28 = 48000
     \<and> getUint16LE (blob_bytes (audioBufferToWavSpec b)) 32 = 2"
proof -
  let ?xs = "hd (channelData b)"
  let ?d = "concat (map (\<lambda>s. int16LE (encodeSample s)) ?xs)"
  have b: "b = monoBuffer 24000 ?xs" and len: "length ?xs = 1000"
    using wellFormed_mono [OF assms(1,2)] assms(3,4) by simp_all
  have bytes: "blob_bytes (audioBufferToWavSpec b) = wavHeader (monoBuffer 24000 ?xs) @ ?d"
    by (subst b) (simp add: audioBufferToWavSpec_def wavData_mono)
  have dlen: "length ?d = 2000" using len by (simp add: length_concat_int16LE)
  show ?thesis
    unfolding bytes header_bytes_1000 [OF len]
    by (simp add: dlen getUint32LE_def getUint16LE_def nth_append)
qed

theorem wav_header_mono_1000_witness:
  "wellFormed (monoBuffer 24000 (replicate 1000 0))
   \<and> numberOfChannels (monoBuffer 24000 (replicate 1000 0)) = 1
   \<and> buf_length (monoBuffer 24000 (replicate 1000 0)) = 1000
   \<and> sampleRate (monoBuffer 24000 (replicate 1000 0)) = 24000
   \<and> length (blob_bytes (audioBufferToWavSpec (monoBuffer 24000 (replicate 1000 0)))) = 2044
   \<and> getUint32LE (blob_bytes (audioBufferToWavSpec (monoBuffer 24000 (replicate 1000 0)))) 4 = 2036
   \<and> getUint32LE (blob_bytes (audioBufferToWavSpec (monoBuffer 24000 (replicate 1000 0)))) 40 = 2000
   \<and> getUint32LE (blob_bytes (audioBufferToWavSpec (monoBuffer 24000 (replicate 1000 0)))) 28 = 48000
   \<and> getUint16LE (blob_bytes (audioBufferToWavSpec (monoBuffer 24000 (replicate 1000 0)))) 32 = 2"
proof -
  have h: "wellFormed (monoBuffer 24000 (replicate 1000 0))
     \<and> numberOfChannels (monoBuffer 24000 (replicate 1000 0)) = 1
     \<and> buf_length (monoBuffer 24000 (replicate 1000 0)) = 1000
     \<and> sampleRate (monoBuffer 24000 (replicate 1000 0)) = 24000"
    by (simp add: wellFormed_def monoBuffer_def)
  then show ?thesis
    using wav_header_mono_1000 [of "monoBuffer 24000 (replicate 1000 0)"] by simp
qed

text \<open>
  C2. A sample is clamped to [-1, 1] and then scaled by 32768 when negative and by 32767
  otherwise, with rounding: 1 encodes to 32767 and -1 to -32768, every value above 1
  encodes as 1 does and every value below -1 as -1 does, the result always lies in the
  signed 16-bit range, and the two bytes written for a sample read back, as a signed
  little-endian integer, as exactly that result.
\<close>

theorem sample_encoding:
  "encodeSample s =
     (if max (- 1) (min 1 s) < 0 then round (max (- 1) (min 1 s) * 32768)
      else round (max (- 1) (min 1 s) * 32767))
   \<and> encodeSample 1 = 32767
   \<and> encodeSample (- 1) = - 32768
   \<and> (1 < hi \<longrightarrow> encodeSample hi = 32767)
   \<and> (lo < - 1 \<longrightarrow> encodeSample lo = - 32768)
   \<and> - 32768 \<le> encodeSample s \<and> encodeSample s \<le> 32767
   \<and> wavPayloadBytesOf (audioBufferToWavSpec (monoBuffer r [s])) = int16LE (encodeSample s)
   \<and> getInt16LE (wavPayloadBytesOf (audioBufferToWavSpec (monoBuffer r [s]))) 0 = encodeSample s"
proof -
  have "getInt16LE (int16LE (encodeSample s) @ []) 0 = encodeSample s"
    using encodeSample_range [of s] by (simp only: getInt16LE_int16LE sint_int16)
  then have rd: "getInt16LE (int16LE (encodeSample s)) 0 = encodeSample s" by simp
  have hi: "1 < hi \<longrightarrow> encodeSample hi = 32767"
    by (simp add: encodeSample_def clampSample_def scaleSample_def)
  have lo: "lo < - 1 \<longrightarrow> encodeSample lo = - 32768"
    by (simp add: encodeSample_def clampSample_def scaleSample_def)
  have one: "encodeSample 1 = 32767" "encodeSample (- 1) = - 32768"
    by (simp_all add: encodeSample_def clampSample_def scaleSample_def)
  have unf: "encodeSample s =
     (if max (- 1) (min 1 s) < 0 then round (max (- 1) (min 1 s) * 32768)
      else round (max (- 1) (min 1 s) * 32767))"
    by (simp only: encodeSample_def clampSample_def scaleSample_def)
  show ?thesis
    using encodeSample_range [of s] rd hi lo one unf by (simp only: payload_mono) simp
qed

theorem sample_encoding_witness:
  "(1::real) < 2 \<and> encodeSample 2 = 32767
   \<and> (- 3 / 2 :: real) < - 1 \<and> encodeSample (- 3 / 2) = - 32768
   \<and> encodeSample (1 / 2) = 16384
   \<and> wavPayloadBytesOf (audioBufferToWavSpec (monoBuffer 24000 [1 / 2])) = [0x00, 0x40]"
proof -
  have e: "encodeSample (1 / 2) = 16384"
    by (simp add: encodeSample_def clampSample_def scaleSample_def round_def)
  show ?thesis
    using sample_encoding [of "1 / 2" 2 "- 3 / 2" 24000]
    by (simp add: e int16LE_def)
qed

text \<open>
  C3, as stated, fails twice. The sample 2064409 / 2097152, a 32-bit float inside
  [-1, 1], comes back as 32255 / 32768, which is more than 1 / 32768 away. The 8-byte
  scenario decodes to the four samples named, and re-encoding them gives 0xFE, 0x7F for
  the second sample, not 0xFF, 0x7F: 32767 / 32768 * 32767 rounds to 32766.
\<close>

theorem roundtrip_counterexample:
  "decodeAudioDataSpec
     (wavPayloadBytesOf (audioBufferToWavSpec (monoBuffer 24000 [2064409 / 2097152]))) 24000 1
     = Inr (monoBuffer 24000 [32255 / 32768])
   \<and> 1 / 32768 < \<bar>32255 / 32768 - 2064409 / (2097152 :: real)\<bar>
   \<and> decodeAudioDataSpec [0x00, 0x00, 0xFF, 0x7F, 0x00, 0x80, 0x01, 0x00] 24000 1
       = Inr (monoBuffer 24000 [0, 32767 / 32768, - 1, 1 / 32768])
   \<and> wavPayloadBytesOf
         (audioBufferToWavSpec (monoBuffer 24000 [0, 32767 / 32768, - 1, 1 / 32768]))
       = [0x00, 0x00, 0xFE, 0x7F, 0x00, 0x80, 0x01, 0x00]"
proof -
  have a: "requantise (2064409 / 2097152) = 32255 / 32768"
    by (simp add: requantise_def encodeSample_def clampSample_def scaleSample_def round_def)
  have b: "decodeAudioDataSpec
     (wavPayloadBytesOf (audioBufferToWavSpec (monoBuffer 24000 [2064409 / 2097152]))) 24000 1
     = Inr (monoBuffer 24000 [32255 / 32768])"
    using decode_payload [of "[2064409 / 2097152]" 24000] by (simp add: a)
  have c: "decodeAudioDataSpec [0x00, 0x00, 0xFF, 0x7F, 0x00, 0x80, 0x01, 0x00] 24000 1
       = Inr (monoBuffer 24000 [0, 32767 / 32768, - 1, 1 / 32768])"
    by (simp add: decodeAudioDataSpec_def monoBuffer_def getInt16LE_def Let_def upt_rec)
  have d: "wavPayloadBytesOf
         (audioBufferToWavSpec (monoBuffer 24000 [0, 32767 / 32768, - 1, 1 / 32768]))
       = [0x00, 0x00, 0xFE, 0x7F, 0x00, 0x80, 0x01, 0x00]"
    by (simp add: payload_mono int16LE_def encodeSample_def clampSample_def scaleSample_def
          round_def Let_def)
  show ?thesis using b c d by simp
qed

text \<open>
  C3, amended. For every non-empty mono buffer with samples in [-1, 1], decoding the
  payload of the encoded blob succeeds and gives a mono buffer of the same length in
  which every sample is within 1.5 / 32768 of the original, and within 0.5 / 32768
  when the original is negative. Re-encoding the decoded 8-byte scenario reproduces the
  bytes of the first, third and fourth sample and gives 0xFE, 0x7F for the second.
\<close>

theorem roundtrip_within_three_halves:
  assumes "xs \<noteq> []" and "\<forall>s\<in>set xs. - 1 \<le> s \<and> s \<le> 1"
  shows "decodeAudioDataSpec (wavPayloadBytesOf (audioBufferToWavSpec (monoBuffer r xs))) r 1
           = Inr (monoBuffer r (map requantise xs))
     \<and> buf_length (monoBuffer r (map requantise xs)) = buf_length (monoBuffer r xs)
     \<and> (\<forall>i<length xs. \<bar>map requantise xs ! i - xs ! i\<bar> \<le> 3 / 65536
            \<and> (xs ! i < 0 \<longrightarrow> \<bar>map requantise xs ! i - xs ! i\<bar> \<le> 1 / 65536))
     \<and> decodeAudioDataSpec [0x00, 0x00, 0xFF, 0x7F, 0x00, 0x80, 0x01, 0x00] 24000 1
         = Inr (monoBuffer 24000 [0, 32767 / 32768, - 1, 1 / 32768])
     \<and> wavPayloadBytesOf
           (audioBufferToWavSpec (monoBuffer 24000 [0, 32767 / 32768, - 1, 1 / 32768]))
         = [0x00, 0x00, 0xFE, 0x7F, 0x00, 0x80, 0x01, 0x00]"
proof -
  have err: "\<forall>i<length xs. \<bar>map requantise xs ! i - xs ! i\<bar> \<le> 3 / 65536
            \<and> (xs ! i < 0 \<longrightarrow> \<bar>map requantise xs ! i - xs ! i\<bar> \<le> 1 / 65536)"
  proof (intro allI impI)
    fix i assume i: "i < length xs"
    then have "- 1 \<le> xs ! i" "xs ! i \<le> 1" using assms(2) by simp_all
    then show "\<bar>map requantise xs ! i - xs ! i\<bar> \<le> 3 / 65536
            \<and> (xs ! i < 0 \<longrightarrow> \<bar>map requantise xs ! i - xs ! i\<bar> \<le> 1 / 65536)"
      using requantise_error [of "xs ! i"] i by simp
  qed
  have c: "decodeAudioDataSpec [0x00, 0x00, 0xFF, 0x7F, 0x00, 0x80, 0x01, 0x00] 24000 1
       = Inr (monoBuffer 24000 [0, 32767 / 32768, - 1, 1 / 32768])"
    by (simp add: decodeAudioDataSpec_def monoBuffer_def getInt16LE_def Let_def upt_rec)
  have d: "wavPayloadBytesOf
         (audioBufferToWavSpec (monoBuffer 24000 [0, 32767 / 32768, - 1, 1 / 32768]))
       = [0x00, 0x00, 0xFE, 0x7F, 0x00, 0x80, 0x01, 0x00]"
    by (simp add: payload_mono int16LE_def encodeSample_def clampSample_def scaleSample_def
          round_def Let_def)
  have len: "buf_length (monoBuffer r (map requantise xs)) = buf_length (monoBuffer r xs)"
    by (simp add: monoBuffer_def)
  show ?thesis
    using decode_payload [OF assms(1), of r] err c d len by (simp only: simp_thms)
qed

theorem roundtrip_within_three_halves_witness:
  "[- 1 / 4, 3 / 4 :: real] \<noteq> []
   \<and> (- 1 :: real) \<le> - 1 / 4 \<and> (- 1 / 4 :: real) \<le> 1 \<and> (- 1 :: real) \<le> 3 / 4 \<and> (3 / 4 :: real) \<le> 1
   \<and> decodeAudioDataSpec
        (wavPayloadBytesOf (audioBufferToWavSpec (monoBuffer 24000 [- 1 / 4, 3 / 4]))) 24000 1
      = Inr (monoBuffer 24000 [- 1 / 4, 24575 / 32768])"
proof -
  have h: "[- 1 / 4, 3 / 4 :: real] \<noteq> []" "\<forall>s\<in>set [- 1 / 4, 3 / 4 :: real]. - 1 \<le> s \<and> s \<le> 1"
    by simp_all
  have q: "requantise (- (1 / 4)) = - (1 / 4)" "requantise (3 / 4) = 24575 / 32768"
    by (simp_all add: requantise_def encodeSample_def clampSample_def scaleSample_def round_def)
  show ?thesis
    using roundtrip_within_three_halves [OF h, of 24000] h by (simp add: q)
qed

section \<open>Properties of the parser\<close>

text \<open>
  C4, as stated, fails on a line that precedes the first recognised line: the
  text of two lines \<^verbatim>\<open>intro\<close> and \<^verbatim>\<open>User: a\<close> parses to the single turn with text
  \<^verbatim>\<open>a\<close>. The line \<^verbatim>\<open>intro\<close> is not blank and matches neither expression, and it is
  appended to no turn.
\<close>

theorem orphan_line_counterexample:
  "split_nl (str ''intro'' @ [0x000A] @ str ''User: a'') = [str ''intro'', str ''User: a'']
   \<and> trim (str ''intro'') = str ''intro''
   \<and> matchLabel (str ''User:'') (str ''intro'') = None
   \<and> matchLabel (str ''Assistant:'') (str ''intro'') = None
   \<and> parseLines (str ''intro'' @ [0x000A] @ str ''User: a'')
       = [\<lparr>speaker = User, line_text = str ''a''\<rparr>]"
  by (simp add: parseLines_def parseLine_def str_def trim_def matchLabel_def isWhiteSpace_def
        isLineTerminator_def canonicalize_def appendToLast_def)

text \<open>
  C4, amended. For every input text the parser produces one turn per line that, after
  trimming, matches one of the two expressions, in order; the text of a turn is the
  trimmed capture followed by every later non-blank line up to the next matching line,
  each trimmed and preceded by one space; a non-blank line before the first matching
  line is dropped.
\<close>

theorem parse_turns:
  "parseLines text = turnsSpec (contentLines text)
   \<and> length (parseLines text)
       = length (filter (\<lambda>t. recognise t \<noteq> None) (contentLines text))"
  by (simp add: parseLines_def contentLines_def foldl_parseLine_content foldl_parseTrimmed_Nil
        length_turnsSpec)

theorem parse_turns_witness:
  "parseLines (str ''User: hi'' @ [0x000A] @ str ''  there '' @ [0x000A] @ str ''assistant:yo'')
     = turnsSpec [str ''User: hi'', str ''there'', str ''assistant:yo'']
   \<and> turnsSpec [str ''User: hi'', str ''there'', str ''assistant:yo'']
     = [\<lparr>speaker = User, line_text = str ''hi there''\<rparr>,
        \<lparr>speaker = Assistant, line_text = str ''yo''\<rparr>]"
proof -
  have c: "contentLines (str ''User: hi'' @ [0x000A] @ str ''  there '' @ [0x000A] @ str ''assistant:yo'')
           = [str ''User: hi'', str ''there'', str ''assistant:yo'']"
    by (simp add: contentLines_def str_def trim_def isWhiteSpace_def isLineTerminator_def)
  have p: "parseLines (str ''User: hi'' @ [0x000A] @ str ''  there '' @ [0x000A] @ str ''assistant:yo'')
           = [\<lparr>speaker = User, line_text = str ''hi there''\<rparr>,
              \<lparr>speaker = Assistant, line_text = str ''yo''\<rparr>]"
    by (simp add: parseLines_def parseLine_def str_def trim_def matchLabel_def isWhiteSpace_def
          isLineTerminator_def canonicalize_def appendToLast_def)
  show ?thesis
    using parse_turns [of "str ''User: hi'' @ [0x000A] @ str ''  there '' @ [0x000A] @ str ''assistant:yo''"]
    by (simp only: c p simp_thms)
qed

text \<open>
  C10, as stated, fails when the capture of a recognised line is empty and a line
  follows: the text of two lines \<^verbatim>\<open>User:\<close> and \<^verbatim>\<open>hello\<close> parses to one turn whose
  text is a space followed by \<^verbatim>\<open>hello\<close>, so the text begins with white space.
\<close>

theorem leading_space_counterexample:
  "parseLines (str ''User:'' @ [0x000A] @ str ''hello'')
     = [\<lparr>speaker = User, line_text = 0x0020 # str ''hello''\<rparr>]
   \<and> isWhiteSpace 0x0020"
  by (simp add: parseLines_def parseLine_def str_def trim_def matchLabel_def isWhiteSpace_def
        isLineTerminator_def canonicalize_def appendToLast_def)

text \<open>
  C10, amended. Every turn the parser produces comes from one recognised line and the
  maximal run of non-matching non-blank lines after it: its text is the trimmed capture
  of that line followed by each line of the run, trimmed and preceded by one space. A
  text that is not empty never ends in white space. It begins with white space exactly
  when the capture is empty and a continuation was appended, and then it begins with
  exactly one space followed by a code unit that is not white space.
\<close>

theorem turn_text_shape:
  assumes "d \<in> set (parseLines text)"
  shows "\<exists>pre l cap cs rest.
      contentLines text = pre @ l # cs @ rest
      \<and> recognise l = Some (speaker d, cap)
      \<and> (\<forall>c\<in>set cs. recognise c = None)
      \<and> (rest \<noteq> [] \<longrightarrow> recognise (hd rest) \<noteq> None)
      \<and> line_text d = cap @ continuation cs
      \<and> (line_text d \<noteq> [] \<longrightarrow> \<not> isWhiteSpace (last (line_text d)))
      \<and> ((line_text d \<noteq> [] \<and> isWhiteSpace (hd (line_text d))) = (cap = [] \<and> cs \<noteq> []))
      \<and> (cap = [] \<and> cs \<noteq> [] \<longrightarrow>
            hd (line_text d) = 0x0020 \<and> tl (line_text d) \<noteq> []
            \<and> \<not> isWhiteSpace (hd (tl (line_text d))))"
proof -
  have "d \<in> set (turnsSpec (contentLines text))"
    using assms by (simp only: parseLines_turnsSpec)
  then obtain pre l cap cs rest where
    h: "contentLines text = pre @ l # cs @ rest" "recognise l = Some (speaker d, cap)"
       "\<forall>c\<in>set cs. recognise c = None" "rest \<noteq> [] \<longrightarrow> recognise (hd rest) \<noteq> None"
       "line_text d = cap @ continuation cs"
    using turnsSpec_decompose by blast
  have "tidy (line_text d)" using assms by (rule parseLines_tidy)
  then have tr: "line_text d \<noteq> [] \<longrightarrow> \<not> isWhiteSpace (last (line_text d))"
    by (cases "line_text d") (auto simp: tidy_def)
  have sp: "isWhiteSpace 0x0020" by (simp add: isWhiteSpace_def)
  have lead: "(line_text d \<noteq> [] \<and> isWhiteSpace (hd (line_text d))) = (cap = [] \<and> cs \<noteq> [])"
  proof (cases "cap = []")
    case True
    show ?thesis
    proof (cases cs)
      case Nil
      then show ?thesis using True h(5) by (simp add: continuation_Nil)
    next
      case (Cons c cs')
      then show ?thesis using True h(5) sp by (simp add: continuation_Cons)
    qed
  next
    case False
    then have "\<not> isWhiteSpace (hd cap)" using h(2) by (rule recognise_trimmed [rotated])
    then show ?thesis using False h(5) by simp
  qed
  have shape: "cap = [] \<and> cs \<noteq> [] \<longrightarrow>
            hd (line_text d) = 0x0020 \<and> tl (line_text d) \<noteq> []
            \<and> \<not> isWhiteSpace (hd (tl (line_text d)))"
  proof (intro impI)
    assume a: "cap = [] \<and> cs \<noteq> []"
    then obtain c cs' where cs: "cs = c # cs'" by (cases cs) auto
    have "c \<in> set (contentLines text)" using h(1) cs by simp
    then have "c \<noteq> [] \<and> \<not> isWhiteSpace (hd c)" using contentLines_mem by blast
    then show "hd (line_text d) = 0x0020 \<and> tl (line_text d) \<noteq> []
            \<and> \<not> isWhiteSpace (hd (tl (line_text d)))"
      using a cs h(5) by (simp add: continuation_Cons)
  qed
  show ?thesis using h tr lead shape by blast
qed

theorem turn_text_shape_witness:
  "\<lparr>speaker = User, line_text = 0x0020 # str ''hello''\<rparr>
     \<in> set (parseLines (str ''User:'' @ [0x000A] @ str ''hello''))
   \<and> contentLines (str ''User:'' @ [0x000A] @ str ''hello'') = [] @ str ''User:'' # [str ''hello''] @ []
   \<and> recognise (str ''User:'') = Some (User, [])
   \<and> recognise (str ''hello'') = None
   \<and> 0x0020 # str ''hello'' = [] @ continuation [str ''hello'']
   \<and> (\<exists>pre l cap cs rest.
        contentLines (str ''User:'' @ [0x000A] @ str ''hello'') = pre @ l # cs @ rest
        \<and> recognise l = Some (User, cap)
        \<and> 0x0020 # str ''hello'' = cap @ continuation cs
        \<and> cap = [] \<and> cs \<noteq> [])"
proof -
  have p: "parseLines (str ''User:'' @ [0x000A] @ str ''hello'')
     = [\<lparr>speaker = User, line_text = 0x0020 # str ''hello''\<rparr>]"
    by (simp add: parseLines_def parseLine_def str_def trim_def matchLabel_def isWhiteSpace_def
          isLineTerminator_def canonicalize_def appendToLast_def)
  have m: "\<lparr>speaker = User, line_text = 0x0020 # str ''hello''\<rparr>
     \<in> set (parseLines (str ''User:'' @ [0x000A] @ str ''hello''))"
    by (simp only: p) simp
  have c: "contentLines (str ''User:'' @ [0x000A] @ str ''hello'') = [] @ str ''User:'' # [str ''hello''] @ []"
    by (simp add: contentLines_def str_def trim_def isWhiteSpace_def isLineTerminator_def)
  have r: "recognise (str ''User:'') = Some (User, [])" "recognise (str ''hello'') = None"
    by (simp_all add: recognise_def str_def trim_def matchLabel_def isWhiteSpace_def
          isLineTerminator_def canonicalize_def)
  have t: "0x0020 # str ''hello'' = [] @ continuation [str ''hello'']"
    by (simp add: continuation_def)
  let ?d = "\<lparr>speaker = User, line_text = 0x0020 # str ''hello''\<rparr>"
  have w: "line_text ?d \<noteq> [] \<and> isWhiteSpace (hd (line_text ?d))"
    by (simp add: isWhiteSpace_def)
  obtain pre l cap cs rest where
    h1: "contentLines (str ''User:'' @ [0x000A] @ str ''hello'') = pre @ l # cs @ rest"
    and h2: "recognise l = Some (speaker ?d, cap)"
    and h3: "line_text ?d = cap @ continuation cs"
    and h4: "(line_text ?d \<noteq> [] \<and> isWhiteSpace (hd (line_text ?d))) = (cap = [] \<and> cs \<noteq> [])"
    using turn_text_shape [OF m] by blast
  have e: "cap = [] \<and> cs \<noteq> []" using h4 w by (simp only: simp_thms)
  have h2': "recognise l = Some (User, cap)" using h2 by simp
  have h3': "0x0020 # str ''hello'' = cap @ continuation cs" using h3 by simp
  show ?thesis using m c r t h1 h2' h3' e by blast
qed

text \<open>
  C6. When no line of the text, trimmed, matches either expression, \<^verbatim>\<open>parseMarkdown\<close>
  leaves the dialogue (and the audio session) as they were, sets the error message and
  sets the status to \<open>ERROR\<close>.
\<close>

theorem no_turns_is_error:
  assumes "\<forall>l\<in>set (split_nl text). recognise (trim l) = None"
  shows "parseLines text = []
     \<and> parseMarkdown text s = s\<lparr>error := Some noLinesMessage, status := ERROR\<rparr>
     \<and> dialogue (parseMarkdown text s) = dialogue s
     \<and> audioSession (parseMarkdown text s) = audioSession s
     \<and> error (parseMarkdown text s) = Some noLinesMessage
     \<and> status (parseMarkdown text s) = ERROR"
proof -
  have "parseLines text = []" using assms by (simp only: parseLines_Nil_iff)
  then show ?thesis by (simp add: parseMarkdown_def)
qed

theorem no_turns_is_error_witness:
  "split_nl (str ''hello'' @ [0x000A] @ str ''world'') = [str ''hello'', str ''world'']
   \<and> recognise (trim (str ''hello'')) = None
   \<and> recognise (trim (str ''world'')) = None
   \<and> dialogue (parseMarkdown (str ''hello'' @ [0x000A] @ str ''world'')
        (initialState\<lparr>status := PARSING,
                       dialogue := [\<lparr>speaker = User, line_text = str ''old''\<rparr>]\<rparr>
           :: (nat, nat) AppState))
       = [\<lparr>speaker = User, line_text = str ''old''\<rparr>]
   \<and> status (parseMarkdown (str ''hello'' @ [0x000A] @ str ''world'')
        (initialState\<lparr>status := PARSING,
                       dialogue := [\<lparr>speaker = User, line_text = str ''old''\<rparr>]\<rparr>
           :: (nat, nat) AppState))
       = ERROR"
proof -
  have h: "\<forall>l\<in>set (split_nl (str ''hello'' @ [0x000A] @ str ''world'')). recognise (trim l) = None"
    by (simp add: str_def recognise_def trim_def matchLabel_def isWhiteSpace_def
          isLineTerminator_def canonicalize_def)
  show ?thesis
    using no_turns_is_error [OF h, of "initialState\<lparr>status := PARSING,
                       dialogue := [\<lparr>speaker = User, line_text = str ''old''\<rparr>]\<rparr>
                         :: (nat, nat) AppState"] h
    by (simp add: str_def)
qed

text \<open>
  C8. When some line of the text, trimmed, matches one of the two expressions,
  \<^verbatim>\<open>parseMarkdown\<close> replaces the dialogue by the parsed turns, of which there is at
  least one, sets the status to \<open>IDLE\<close> and sets the audio session to null.
\<close>

theorem parse_success_resets_session:
  assumes "\<exists>l\<in>set (split_nl text). recognise (trim l) \<noteq> None"
  shows "parseLines text \<noteq> []
     \<and> parseMarkdown text s
         = s\<lparr>dialogue := parseLines text, status := IDLE, audioSession := None\<rparr>
     \<and> dialogue (parseMarkdown text s) = parseLines text
     \<and> status (parseMarkdown text s) = IDLE
     \<and> audioSession (parseMarkdown text s) = None"
proof -
  have "parseLines text \<noteq> []" using assms by (simp only: parseLines_Nil_iff) simp
  then show ?thesis by (simp add: parseMarkdown_def)
qed

theorem parse_success_resets_session_witness:
  "(\<exists>l\<in>set (split_nl (str ''User: hi'')). recognise (trim l) \<noteq> None)
   \<and> parseMarkdown (str ''User: hi'')
        (initialState\<lparr>status := SUCCESS,
                       audioSession := Some \<lparr>buffer = 7, blob = 9, url = str ''blob:1''\<rparr>\<rparr>
           :: (nat, nat) AppState)
       = initialState\<lparr>dialogue := [\<lparr>speaker = User, line_text = str ''hi''\<rparr>]\<rparr>"
proof -
  have h: "\<exists>l\<in>set (split_nl (str ''User: hi'')). recognise (trim l) \<noteq> None"
    by (simp add: str_def recognise_def trim_def matchLabel_def isWhiteSpace_def
          isLineTerminator_def canonicalize_def)
  have p: "parseLines (str ''User: hi'') = [\<lparr>speaker = User, line_text = str ''hi''\<rparr>]"
    by (simp add: parseLines_def parseLine_def str_def trim_def matchLabel_def isWhiteSpace_def
          isLineTerminator_def canonicalize_def appendToLast_def)
  show ?thesis
    using parse_success_resets_session [OF h, of "initialState\<lparr>status := SUCCESS,
                       audioSession := Some \<lparr>buffer = 7, blob = 9, url = str ''blob:1''\<rparr>\<rparr>
                         :: (nat, nat) AppState"] h
    by (simp add: p initialState_def)
qed

section \<open>Properties of the generation call and the generate action\<close>

text \<open>
  C7, as stated, fails in one direction: a response whose first part carries no inline
  data and whose second part carries the audio does contain an audio payload, and
  \<^verbatim>\<open>generateTTS\<close> fails on it with the no-audio error.
\<close>

theorem audio_in_second_part_counterexample:
  "carriesAudio
     \<lparr>candidates = Some [\<lparr>content = Some \<lparr>parts = Some
        [\<lparr>inlineData = None\<rparr>, \<lparr>inlineData = Some \<lparr>data = Some (str ''AAD/fw=='')\<rparr>\<rparr>]\<rparr>\<rparr>]\<rparr>
   \<and> fst (generateTTS (str ''tts'')
          (\<lambda>req. Inr \<lparr>candidates = Some [\<lparr>content = Some \<lparr>parts = Some
             [\<lparr>inlineData = None\<rparr>,
              \<lparr>inlineData = Some \<lparr>data = Some (str ''AAD/fw=='')\<rparr>\<rparr>]\<rparr>\<rparr>]\<rparr>)
          [\<lparr>speaker = User, line_text = str ''hi''\<rparr>]
          \<lparr>name = str ''User'', voice = str ''Kore''\<rparr>
          \<lparr>name = str ''Assistant'', voice = str ''Puck''\<rparr>)
     = Inl (JsError (Some (str ''No audio data received from Gemini API'')))"
  by (simp add: carriesAudio_def generateTTS_def base64Audio_def first_def noAudioMessage_def
        str_def Let_def)

text \<open>
  C7, amended. When the remote service has answered, \<^verbatim>\<open>generateTTS\<close> returns a
  string \<open>d\<close> exactly when the first part of the first candidate of the response has
  inline data whose data is \<open>d\<close> and \<open>d\<close> is not empty; in every other case, audio
  in a later part or candidate included, it fails with the error whose message is
  \<^verbatim>\<open>No audio data received from Gemini API\<close>. One request is issued either way.
\<close>

theorem generateTTS_first_part:
  assumes "remote (mkRequest mdl lines uc ac) = Inr response"
  shows "(fst (generateTTS mdl remote lines uc ac) = Inr d)
           = (d \<noteq> [] \<and> (\<exists>c cs ct p ps i.
                candidates response = Some (c # cs) \<and> content c = Some ct
                \<and> parts ct = Some (p # ps) \<and> inlineData p = Some i \<and> data i = Some d))
     \<and> (fst (generateTTS mdl remote lines uc ac)
           = Inl (JsError (Some (str ''No audio data received from Gemini API''))))
           = (\<not> (\<exists>d' c cs ct p ps i. d' \<noteq> []
                \<and> candidates response = Some (c # cs) \<and> content c = Some ct
                \<and> parts ct = Some (p # ps) \<and> inlineData p = Some i \<and> data i = Some d'))
     \<and> isl (fst (generateTTS mdl remote lines uc ac))
           = (\<not> (\<exists>d' c cs ct p ps i. d' \<noteq> []
                \<and> candidates response = Some (c # cs) \<and> content c = Some ct
                \<and> parts ct = Some (p # ps) \<and> inlineData p = Some i \<and> data i = Some d'))
     \<and> snd (generateTTS mdl remote lines uc ac) = [mkRequest mdl lines uc ac]"
proof -
  have ex: "(base64Audio response = Some x)
        = (\<exists>c cs ct p ps i. candidates response = Some (c # cs) \<and> content c = Some ct
                \<and> parts ct = Some (p # ps) \<and> inlineData p = Some i \<and> data i = Some x)" for x
    by (auto simp: base64Audio_def first_def split: option.splits list.splits)
  have r: "fst (generateTTS mdl remote lines uc ac)
      = (case base64Audio response of
           None \<Rightarrow> Inl (JsError (Some noAudioMessage))
         | Some b \<Rightarrow> if b = [] then Inl (JsError (Some noAudioMessage)) else Inr b)"
    using assms by (simp add: generateTTS_def Let_def)
  have a: "(fst (generateTTS mdl remote lines uc ac) = Inr d)
      = (d \<noteq> [] \<and> base64Audio response = Some d)"
    unfolding r by (auto split: option.splits)
  have b: "(fst (generateTTS mdl remote lines uc ac) = Inl (JsError (Some noAudioMessage)))
      = (\<not> (\<exists>d'. d' \<noteq> [] \<and> base64Audio response = Some d'))"
    unfolding r by (auto split: option.splits)
  have c: "isl (fst (generateTTS mdl remote lines uc ac))
      = (\<not> (\<exists>d'. d' \<noteq> [] \<and> base64Audio response = Some d'))"
    unfolding r by (auto split: option.splits)
  have s: "snd (generateTTS mdl remote lines uc ac) = [mkRequest mdl lines uc ac]"
    by (simp add: generateTTS_def Let_def)
  show ?thesis
    using a b c s unfolding ex noAudioMessage_def by blast
qed

theorem generateTTS_first_part_witness:
  "fst (generateTTS (str ''tts'')
          (\<lambda>req. Inr \<lparr>candidates = Some [\<lparr>content = Some \<lparr>parts = Some
                         [\<lparr>inlineData = Some \<lparr>data = Some (str ''AAD/fw=='')\<rparr>\<rparr>]\<rparr>\<rparr>]\<rparr>)
          [\<lparr>speaker = User, line_text = str ''hi''\<rparr>]
          \<lparr>name = str ''User'', voice = str ''Kore''\<rparr>
          \<lparr>name = str ''Assistant'', voice = str ''Puck''\<rparr>)
     = Inr (str ''AAD/fw=='')
   \<and> fst (generateTTS (str ''tts'')
          (\<lambda>req. Inr \<lparr>candidates = Some [\<lparr>content = Some \<lparr>parts = Some []\<rparr>\<rparr>]\<rparr>)
          [\<lparr>speaker = User, line_text = str ''hi''\<rparr>]
          \<lparr>name = str ''User'', voice = str ''Kore''\<rparr>
          \<lparr>name = str ''Assistant'', voice = str ''Puck''\<rparr>)
     = Inl (JsError (Some (str ''No audio data received from Gemini API'')))"
proof -
  have c: "str ''AAD/fw=='' \<noteq> []" by (simp add: str_def)
  have one: "fst (generateTTS (str ''tts'')
          (\<lambda>req. Inr \<lparr>candidates = Some [\<lparr>content = Some \<lparr>parts = Some
                         [\<lparr>inlineData = Some \<lparr>data = Some (str ''AAD/fw=='')\<rparr>\<rparr>]\<rparr>\<rparr>]\<rparr>)
          [\<lparr>speaker = User, line_text = str ''hi''\<rparr>]
          \<lparr>name = str ''User'', voice = str ''Kore''\<rparr>
          \<lparr>name = str ''Assistant'', voice = str ''Puck''\<rparr>)
     = Inr (str ''AAD/fw=='')"
    using generateTTS_first_part [of
        "\<lambda>req. Inr \<lparr>candidates = Some [\<lparr>content = Some \<lparr>parts = Some
                         [\<lparr>inlineData = Some \<lparr>data = Some (str ''AAD/fw=='')\<rparr>\<rparr>]\<rparr>\<rparr>]\<rparr>"
        "str ''tts''" "[\<lparr>speaker = User, line_text = str ''hi''\<rparr>]"
        "\<lparr>name = str ''User'', voice = str ''Kore''\<rparr>"
        "\<lparr>name = str ''Assistant'', voice = str ''Puck''\<rparr>"
        "\<lparr>candidates = Some [\<lparr>content = Some \<lparr>parts = Some
                         [\<lparr>inlineData = Some \<lparr>data = Some (str ''AAD/fw=='')\<rparr>\<rparr>]\<rparr>\<rparr>]\<rparr>"
        "str ''AAD/fw==''"] c
    by simp
  have two: "fst (generateTTS (str ''tts'')
          (\<lambda>req. Inr \<lparr>candidates = Some [\<lparr>content = Some \<lparr>parts = Some []\<rparr>\<rparr>]\<rparr>)
          [\<lparr>speaker = User, line_text = str ''hi''\<rparr>]
          \<lparr>name = str ''User'', voice = str ''Kore''\<rparr>
          \<lparr>name = str ''Assistant'', voice = str ''Puck''\<rparr>)
     = Inl (JsError (Some (str ''No audio data received from Gemini API'')))"
    using generateTTS_first_part [of
        "\<lambda>req. Inr \<lparr>candidates = Some [\<lparr>content = Some \<lparr>parts = Some []\<rparr>\<rparr>]\<rparr>"
        "str ''tts''" "[\<lparr>speaker = User, line_text = str ''hi''\<rparr>]"
        "\<lparr>name = str ''User'', voice = str ''Kore''\<rparr>"
        "\<lparr>name = str ''Assistant'', voice = str ''Puck''\<rparr>"
        "\<lparr>candidates = Some [\<lparr>content = Some \<lparr>parts = Some []\<rparr>\<rparr>]\<rparr>"]
    by simp
  show ?thesis using one two by simp
qed

text \<open>
  C9. With an empty dialogue \<^verbatim>\<open>handleGenerate\<close> returns at once: the state, and so
  its status, error and audio session, is unchanged, and no request is sent to the
  remote service.
\<close>

theorem generate_without_dialogue:
  assumes "dialogue s = []"
  shows "handleGenerate sv s = (s, [])
     \<and> status (fst (handleGenerate sv s)) = status s
     \<and> error (fst (handleGenerate sv s)) = error s
     \<and> audioSession (fst (handleGenerate sv s)) = audioSession s
     \<and> snd (handleGenerate sv s) = []"
  using assms by (simp add: handleGenerate_def)

theorem generate_without_dialogue_witness:
  "dialogue (initialState :: (AudioBuffer, WavFileBlob) AppState) = []
   \<and> handleGenerate
        (coreServices (str ''tts'') (\<lambda>req. Inl (JsError None)) (\<lambda>b. Inr []) (\<lambda>w. str ''blob:1''))
        initialState
     = (initialState, [])"
proof -
  have h: "dialogue (initialState :: (AudioBuffer, WavFileBlob) AppState) = []"
    by (simp add: initialState_def)
  show ?thesis
    using generate_without_dialogue [OF h,
        of "coreServices (str ''tts'') (\<lambda>req. Inl (JsError None)) (\<lambda>b. Inr []) (\<lambda>w. str ''blob:1'')"] h
    by simp
qed

text \<open>
  C5. When a generation attempt fails at the remote call, at the creation of the audio
  context, at either decoding step or at the encoding step, the audio session after \<^verbatim>\<open>handleGenerate\<close> is the audio
  session before it, and the attempt ends in status \<open>ERROR\<close> with the message of
  the exception. In every case the audio session is either unchanged or a new session
  holding the buffer, the blob the encoder returned for that buffer and the URL made
  from that blob, with status \<open>SUCCESS\<close>.
\<close>

theorem failed_generation_keeps_session:
  "(generationFails sv s e \<longrightarrow>
      audioSession (fst (handleGenerate sv s)) = audioSession s
      \<and> (dialogue s \<noteq> [] \<longrightarrow>
            status (fst (handleGenerate sv s)) = ERROR
            \<and> error (fst (handleGenerate sv s)) = Some (errorText e)))
   \<and> (audioSession (fst (handleGenerate sv s)) = audioSession s
      \<or> (\<exists>buf w. audioBufferToWav sv buf = Inr w
            \<and> audioSession (fst (handleGenerate sv s))
                = Some \<lparr>buffer = buf, blob = w, url = createObjectURL sv w\<rparr>
            \<and> status (fst (handleGenerate sv s)) = SUCCESS))"
  by (auto simp: handleGenerate_def generationFails_def failed_def Let_def
        split: sum.splits prod.splits)

theorem failed_generation_keeps_session_witness:
  "generationFails
     (coreServices (str ''tts'')
        (\<lambda>req. Inr \<lparr>candidates = Some [\<lparr>content = Some \<lparr>parts = Some
                       [\<lparr>inlineData = Some \<lparr>data = Some (str ''AAD/fw=='')\<rparr>\<rparr>]\<rparr>\<rparr>]\<rparr>)
        (\<lambda>b. Inr []) (\<lambda>w. str ''blob:2''))
     (initialState\<lparr>dialogue := [\<lparr>speaker = User, line_text = str ''hi''\<rparr>],
                    audioSession := Some \<lparr>buffer = monoBuffer 24000 [0],
                                          blob = \<lparr>blob_type = ''audio/wav'', blob_bytes = []\<rparr>,
                                          url = str ''blob:1''\<rparr>\<rparr>)
     (JsError None)
   \<and> audioSession (fst (handleGenerate
     (coreServices (str ''tts'')
        (\<lambda>req. Inr \<lparr>candidates = Some [\<lparr>content = Some \<lparr>parts = Some
                       [\<lparr>inlineData = Some \<lparr>data = Some (str ''AAD/fw=='')\<rparr>\<rparr>]\<rparr>\<rparr>]\<rparr>)
        (\<lambda>b. Inr []) (\<lambda>w. str ''blob:2''))
     (initialState\<lparr>dialogue := [\<lparr>speaker = User, line_text = str ''hi''\<rparr>],
                    audioSession := Some \<lparr>buffer = monoBuffer 24000 [0],
                                          blob = \<lparr>blob_type = ''audio/wav'', blob_bytes = []\<rparr>,
                                          url = str ''blob:1''\<rparr>\<rparr>)))
     = Some \<lparr>buffer = monoBuffer 24000 [0],
             blob = \<lparr>blob_type = ''audio/wav'', blob_bytes = []\<rparr>, url = str ''blob:1''\<rparr>"
proof -
  let ?sv = "coreServices (str ''tts'')
        (\<lambda>req. Inr \<lparr>candidates = Some [\<lparr>content = Some \<lparr>parts = Some
                       [\<lparr>inlineData = Some \<lparr>data = Some (str ''AAD/fw=='')\<rparr>\<rparr>]\<rparr>\<rparr>]\<rparr>)
        (\<lambda>b. Inr []) (\<lambda>w. str ''blob:2'')"
  let ?s = "initialState\<lparr>dialogue := [\<lparr>speaker = User, line_text = str ''hi''\<rparr>],
                    audioSession := Some \<lparr>buffer = monoBuffer 24000 [0],
                                          blob = \<lparr>blob_type = ''audio/wav'', blob_bytes = []\<rparr>,
                                          url = str ''blob:1''\<rparr>\<rparr>"
  have f: "generationFails ?sv ?s (JsError None)"
    by (simp add: generationFails_def coreServices_def generateTTS_def base64Audio_def first_def
          str_def decodeAudioDataSpec_def Let_def)
  show ?thesis
    using failed_generation_keeps_session [of ?sv ?s "JsError None"] f by simp
qed

end
